theory Spec2Isabelle
  imports Complex_Main
begin

section \<open>Data model\<close>

text \<open>
  Python floats and tensor entries are modelled as mathematical reals: every statement
  below is about the exact arithmetic the code writes down, not about rounding.
  The exceptions the modelled code can raise are values of \<open>error\<close>.
\<close>

datatype error = IndexError | UnboundLocalError | ZeroDivisionError | RuntimeError | NonFinite | TraceEnded

text \<open>
  A transition is the 5-tuple \<^verbatim>\<open>(state, action, reward, next_state, done)\<close> that
  \<^verbatim>\<open>DQNBaseAgent.step\<close> returns and that \<^verbatim>\<open>preprocess_nstep\<close> unpacks.
\<close>

type_synonym ('s, 'a) transition = "'s \<times> 'a \<times> real \<times> 's \<times> bool"

definition t_state :: "('s, 'a) transition \<Rightarrow> 's" where
  "t_state t = (case t of (state, _, _, _, _) \<Rightarrow> state)"

definition t_action :: "('s, 'a) transition \<Rightarrow> 'a" where
  "t_action t = (case t of (_, action, _, _, _) \<Rightarrow> action)"

definition t_reward :: "('s, 'a) transition \<Rightarrow> real" where
  "t_reward t = (case t of (_, _, reward, _, _) \<Rightarrow> reward)"

definition t_next_state :: "('s, 'a) transition \<Rightarrow> 's" where
  "t_next_state t = (case t of (_, _, _, next_state, _) \<Rightarrow> next_state)"

definition t_done :: "('s, 'a) transition \<Rightarrow> bool" where
  "t_done t = (case t of (_, _, _, _, done) \<Rightarrow> done)"

section \<open>common\_utils.py: n-step aggregation\<close>

text \<open>
  \<^verbatim>\<open>
  def preprocess_nstep(n_step_queue, gamma):
      discounted_reward = 0
      _, _, _, last_state, done = n_step_queue[-1]
      for transition in list(reversed(n_step_queue)):
          state, action, reward, _, _ = transition
          discounted_reward = reward + gamma * discounted_reward
      return state, action, discounted_reward, last_state, done
  \<close>
  The loop variables \<^verbatim>\<open>state\<close> and \<^verbatim>\<open>action\<close> are unbound until the first
  iteration, so the loop state carries them as an option. The queue is a list, oldest
  element first; \<^verbatim>\<open>n_step_queue[-1]\<close> raises IndexError on an empty queue.
\<close>

fun nstep_loop ::
  "('s, 'a) transition list \<Rightarrow> real \<Rightarrow> ('s \<times> 'a) option \<times> real \<Rightarrow> ('s \<times> 'a) option \<times> real"
where
  "nstep_loop [] gamma acc = acc"
| "nstep_loop ((state, action, reward, _, _) # ts) gamma (sa, discounted_reward) =
     nstep_loop ts gamma (Some (state, action), reward + gamma * discounted_reward)"

definition preprocess_nstep ::
  "('s, 'a) transition list \<Rightarrow> real \<Rightarrow> error + ('s, 'a) transition"
where
  "preprocess_nstep n_step_queue gamma =
     (if n_step_queue = [] then Inl IndexError
      else (case last n_step_queue of (_, _, _, last_state, done) \<Rightarrow>
        (case nstep_loop (rev n_step_queue) gamma (None, 0) of
           (None, _) \<Rightarrow> Inl UnboundLocalError
         | (Some (state, action), discounted_reward) \<Rightarrow>
             Inr (state, action, discounted_reward, last_state, done))))"

text \<open>
  The two readings of the aggregated reward that the specification gives, written from
  its words. \<open>spec_walk_return\<close> is the walk of section 4.1: from the most recent
  transition to the oldest, \<open>discounted = reward_i + gamma * discounted\<close>, starting at 0.
  \<open>spec_newest_first_sum\<close> is the closed form of section 8:
  \<open>\<Sum>i<n. gamma^i * r (n - 1 - i)\<close>, the newest reward with weight \<open>gamma^0\<close>.
  \<open>oldest_first_sum\<close> is the closed form with the oldest reward at weight \<open>gamma^0\<close>.
\<close>

definition spec_walk_return :: "real \<Rightarrow> real list \<Rightarrow> real" where
  "spec_walk_return gamma rs = foldl (\<lambda>discounted r. r + gamma * discounted) 0 (rev rs)"

definition spec_newest_first_sum :: "real \<Rightarrow> real list \<Rightarrow> real" where
  "spec_newest_first_sum gamma rs = (\<Sum>i<length rs. gamma ^ i * rs ! (length rs - 1 - i))"

definition oldest_first_sum :: "real \<Rightarrow> real list \<Rightarrow> real" where
  "oldest_first_sum gamma rs = (\<Sum>i<length rs. gamma ^ i * rs ! i)"

section \<open>common\_utils.py: target network synchronisation\<close>

text \<open>
  \<^verbatim>\<open>
  def soft_update(network, target_network, tau):
      for param, target_param in zip(network.parameters(), target_network.parameters()):
          target_param.data.copy_(param.data * tau + target_param.data * (1.0 - tau))

  def hard_update(network, target_network):
      for param, target_param in zip(network.parameters(), target_network.parameters()):
          target_param.data.copy_(param.data)
  \<close>
  Both functions write through references, so parameters live in a store: an address
  holds the data of one parameter tensor, and a network is the list of the addresses of
  its parameters, in the order of \<^verbatim>\<open>parameters()\<close>. The data of a tensor is a point of
  a real vector space (\<^verbatim>\<open>param.data * tau\<close> is scalar multiplication), which fixes
  one shape for the parameters that are combined. \<^verbatim>\<open>zip\<close> stops at the shorter list.
\<close>

type_synonym addr = nat

type_synonym 'v store = "addr \<Rightarrow> 'v"

fun soft_update_loop :: "(addr \<times> addr) list \<Rightarrow> real \<Rightarrow> ('v::real_vector) store \<Rightarrow> 'v store" where
  "soft_update_loop [] tau h = h"
| "soft_update_loop ((param, target_param) # ps) tau h =
     soft_update_loop ps tau
       (h(target_param := tau *\<^sub>R h param + (1 - tau) *\<^sub>R h target_param))"

definition soft_update ::
  "addr list \<Rightarrow> addr list \<Rightarrow> real \<Rightarrow> ('v::real_vector) store \<Rightarrow> 'v store"
where
  "soft_update network target_network tau h =
     soft_update_loop (zip network target_network) tau h"

fun hard_update_loop :: "(addr \<times> addr) list \<Rightarrow> 'v store \<Rightarrow> 'v store" where
  "hard_update_loop [] h = h"
| "hard_update_loop ((param, target_param) # ps) h =
     hard_update_loop ps (h(target_param := h param))"

definition hard_update :: "addr list \<Rightarrow> addr list \<Rightarrow> 'v store \<Rightarrow> 'v store" where
  "hard_update network target_network h = hard_update_loop (zip network target_network) h"

text \<open>
  A store for running the two functions on networks that share a parameter: address 0
  holds 4, address 1 holds 8 and every other address 16.
\<close>

definition example_store :: "real store" where
  "example_store a = (if a = 0 then 4 else if a = 1 then 8 else 16)"

section \<open>loss.py: bootstrap targets and the quantile Huber loss\<close>

text \<open>
  A batch tensor of shape \<open>(batch, 1)\<close> is the list of its rows' single entries, one of
  shape \<open>(batch, k)\<close> the list of its rows. \<^verbatim>\<open>dones\<close> is the float tensor that
  \<^verbatim>\<open>_preprocess_experience\<close> builds from the boolean flags, so its entries are reals.
  The networks' forward passes are outside the repository's files: their outputs
  (\<^verbatim>\<open>next_q\<close>, \<^verbatim>\<open>next_z\<close>) and attributes (\<^verbatim>\<open>support\<close>, \<^verbatim>\<open>v_min\<close>,
  \<^verbatim>\<open>v_max\<close>, \<^verbatim>\<open>delta_z\<close>) are parameters.

  DQNLoss:
  \<^verbatim>\<open>
  n_step_gamma = self.hyper_params.gamma ** self.hyper_params.n_step
  target_q = rewards + (1 - dones) * n_step_gamma * next_q
  \<close>
\<close>

definition dqn_target_q ::
  "real \<Rightarrow> nat \<Rightarrow> real list \<Rightarrow> real list \<Rightarrow> real list \<Rightarrow> real list"
where
  "dqn_target_q gamma n_step rewards dones next_q =
     (let n_step_gamma = gamma ^ n_step
      in map (\<lambda>(r, d, q). r + (1 - d) * n_step_gamma * q) (zip rewards (zip dones next_q)))"

text \<open>
  QRLoss, the reward and done entries of a row broadcast over its quantiles:
  \<^verbatim>\<open>
  n_step_gamma = self.hyper_params.gamma ** self.hyper_params.n_step
  target_z = rewards + (1 - dones) * n_step_gamma * next_z
  \<close>
\<close>

definition qr_target_z ::
  "real \<Rightarrow> nat \<Rightarrow> real list \<Rightarrow> real list \<Rightarrow> real list list \<Rightarrow> real list list"
where
  "qr_target_z gamma n_step rewards dones next_z =
     (let n_step_gamma = gamma ^ n_step
      in map (\<lambda>(r, d, zs). map (\<lambda>z. r + (1 - d) * n_step_gamma * z) zs)
           (zip rewards (zip dones next_z)))"

text \<open>
  CategoricalLoss, the support broadcast over the rows; the second assignment clamps:
  \<^verbatim>\<open>
  n_step_gamma = self.hyper_params.gamma ** self.hyper_params.n_step
  target_z = rewards + (1 - dones) * n_step_gamma * network.support
  target_z = torch.clamp(target_z, min=network.v_min, max=network.v_max)
  \<close>
  \<^verbatim>\<open>torch.clamp\<close> computes \<open>min (max x lo) hi\<close> at every entry.
\<close>

definition torch_clamp :: "real \<Rightarrow> real \<Rightarrow> real \<Rightarrow> real" where
  "torch_clamp x lo hi = min (max x lo) hi"

definition categorical_target_z_raw ::
  "real \<Rightarrow> nat \<Rightarrow> real list \<Rightarrow> real list \<Rightarrow> real list \<Rightarrow> real list list"
where
  "categorical_target_z_raw gamma n_step support rewards dones =
     (let n_step_gamma = gamma ^ n_step
      in map (\<lambda>(r, d). map (\<lambda>z. r + (1 - d) * n_step_gamma * z) support) (zip rewards dones))"

definition categorical_target_z ::
  "real \<Rightarrow> nat \<Rightarrow> real list \<Rightarrow> real \<Rightarrow> real \<Rightarrow> real list \<Rightarrow> real list \<Rightarrow> real list list"
where
  "categorical_target_z gamma n_step support v_min v_max rewards dones =
     map (map (\<lambda>x. torch_clamp x v_min v_max))
       (categorical_target_z_raw gamma n_step support rewards dones)"

text \<open>
  \<^verbatim>\<open>
  def quantile_huber_loss(x, k=1.0):
      return torch.where(x.abs() < k, 0.5 * x.pow(2), k * (x.abs() - 0.5 * k))
  \<close>
  \<open>huber_where\<close> is the entry-wise choice of \<^verbatim>\<open>torch.where\<close>; the loss maps it over
  the entries of \<open>x\<close>.
\<close>

definition huber_where :: "real \<Rightarrow> real \<Rightarrow> real" where
  "huber_where x k = (if \<bar>x\<bar> < k then 0.5 * x ^ 2 else k * (\<bar>x\<bar> - 0.5 * k))"

definition quantile_huber_loss :: "real list \<Rightarrow> real \<Rightarrow> real list" where
  "quantile_huber_loss x k = map (\<lambda>x_i. huber_where x_i k) x"

section \<open>loss.py: the categorical projection\<close>

text \<open>
  \<^verbatim>\<open>
  def dist_projection(self, network, next_z, target_z, offset):
      b = (target_z - network.v_min) / network.delta_z
      l = b.floor().long()
      u = b.ceil().long()
      proj_dist = torch.zeros(next_z.size(), device=self.device)
      proj_dist.view(-1).index_add_(
          0, (l + offset).view(-1), (next_z * (u.float() - b)).view(-1))
      proj_dist.view(-1).index_add_(
          0, (u + offset).view(-1), (next_z * (b - l.float())).view(-1))
      return proj_dist
  \<close>
  \<^verbatim>\<open>view(-1)\<close> is the concatenation of the rows. \<^verbatim>\<open>index_add_\<close> adds
  \<open>source[j]\<close> to \<open>self[index[j]]\<close> for every \<open>j\<close>, accumulating over repeated
  indices; it raises when an index is outside \<open>self\<close> and when index and source differ
  in length. The three argument tensors have the shape \<open>(batch, num_atoms)\<close> at the
  only call site; the model checks that they agree in shape and does not model
  broadcasting. With \<open>delta_z = 0\<close> the floating point division gives infinities and
  NaN, which have no counterpart here: the model answers \<open>NonFinite\<close>.
\<close>

fun index_add :: "real list \<Rightarrow> int list \<Rightarrow> real list \<Rightarrow> error + real list" where
  "index_add self [] [] = Inr self"
| "index_add self (i # idx) (v # src) =
     (if 0 \<le> i \<and> i < int (length self)
      then index_add (self[nat i := self ! nat i + v]) idx src
      else Inl IndexError)"
| "index_add self _ _ = Inl RuntimeError"

definition same_shape :: "'a list list \<Rightarrow> 'b list list \<Rightarrow> bool" where
  "same_shape A B = (map length A = map length B)"

definition tmap2 :: "('a \<Rightarrow> 'b \<Rightarrow> 'c) \<Rightarrow> 'a list list \<Rightarrow> 'b list list \<Rightarrow> 'c list list" where
  "tmap2 f A B = map (\<lambda>(xs, ys). map (\<lambda>(x, y). f x y) (zip xs ys)) (zip A B)"

fun view_as :: "'b list list \<Rightarrow> 'a list \<Rightarrow> 'a list list" where
  "view_as [] flat = []"
| "view_as (row # rows) flat =
     take (length row) flat # view_as rows (drop (length row) flat)"

definition dist_projection ::
  "real \<Rightarrow> real \<Rightarrow> real list list \<Rightarrow> real list list \<Rightarrow> int list list \<Rightarrow> error + real list list"
where
  "dist_projection v_min delta_z next_z target_z offset =
     (if delta_z = 0 then Inl NonFinite
      else if \<not> (same_shape next_z target_z \<and> same_shape next_z offset) then Inl RuntimeError
      else
        let b = map (map (\<lambda>tz. (tz - v_min) / delta_z)) target_z;
            l = map (map floor) b;
            u = map (map ceiling) b;
            proj_dist = replicate (length (concat next_z)) 0
        in (case index_add proj_dist (concat (tmap2 (+) l offset))
                   (concat (tmap2 (*) next_z (tmap2 (-) (map (map of_int) u) b))) of
              Inl e \<Rightarrow> Inl e
            | Inr proj_dist1 \<Rightarrow>
               (case index_add proj_dist1 (concat (tmap2 (+) u offset))
                      (concat (tmap2 (*) next_z (tmap2 (-) b (map (map of_int) l)))) of
                  Inl e \<Rightarrow> Inl e
                | Inr proj_dist2 \<Rightarrow> Inr (view_as next_z proj_dist2))))"

text \<open>
  The offset tensor that \<^verbatim>\<open>CategoricalLoss.__call__\<close> passes: row \<open>i\<close> holds
  \<open>i * num_atoms\<close> in every column.
  \<^verbatim>\<open>
  offset = (torch.linspace(0, (batch_size - 1) * network.num_atoms, batch_size)
            .long().unsqueeze(1).expand(batch_size, network.num_atoms))
  \<close>
\<close>

definition offset_rows :: "nat \<Rightarrow> nat \<Rightarrow> int list list" where
  "offset_rows batch_size num_atoms =
     map (\<lambda>i. replicate num_atoms (int (i * num_atoms))) [0..<batch_size]"

text \<open>
  The mass that a projection can keep: every atom's probability weighted by
  \<open>\<lceil>b\<rceil> - \<lfloor>b\<rfloor>\<close>, which is 0 where \<open>b\<close> is an integer and 1 elsewhere.
\<close>

definition kept_mass :: "real \<Rightarrow> real \<Rightarrow> real list list \<Rightarrow> real list list \<Rightarrow> real" where
  "kept_mass v_min delta_z next_z target_z =
     sum_list (concat (tmap2
       (\<lambda>nz tz. nz * real_of_int (\<lceil>(tz - v_min) / delta_z\<rceil> - \<lfloor>(tz - v_min) / delta_z\<rfloor>))
       next_z target_z))"

section \<open>agent.py: the training loop\<close>

text \<open>
  The hyper-parameters that \<^verbatim>\<open>DQNBaseAgent.train\<close> and the losses read. A negative
  \<^verbatim>\<open>n_step\<close> makes \<^verbatim>\<open>deque(maxlen=n_step)\<close> raise at construction, so it is a
  natural number here.
\<close>

record hyper_params =
  hp_n_step :: nat
  hp_gamma :: real
  hp_update_starting_point :: int
  hp_train_freq :: int
  hp_use_per :: bool

text \<open>
  The replay buffer, the learner and the action selector are classes outside the
  repository's files; the loop uses them through the methods below, which are
  parameters of the model. \<open>update_model\<close> stands for
  \<^verbatim>\<open>learner.update_model(self._preprocess_experience(experience))\<close> and returns the
  new learner with \<^verbatim>\<open>info[0]\<close> and \<^verbatim>\<open>info[-2:]\<close>.
\<close>

record ('t, 'b, 'x, 'l, 'i, 'e) collaborators =
  buffer_add :: "'t \<Rightarrow> 'b \<Rightarrow> 'b"
  buffer_len :: "'b \<Rightarrow> nat"
  buffer_sample :: "'b \<Rightarrow> 'x"
  buffer_update_priorities :: "'i \<Rightarrow> 'b \<Rightarrow> 'b"
  update_model :: "'x \<Rightarrow> 'l \<Rightarrow> 'l \<times> real \<times> 'i"
  decay_epsilon :: "'e \<Rightarrow> 'e"

text \<open>
  The state that the loop reads and writes: the attributes of the agent and the local
  variables \<^verbatim>\<open>step\<close>, \<^verbatim>\<open>losses\<close> and \<^verbatim>\<open>episode_reward\<close> of \<^verbatim>\<open>train\<close>.
\<close>

record ('s, 'a, 'b, 'l, 'e) agent =
  step :: nat
  transition_queue :: "('s, 'a) transition list"
  replay_buffer :: 'b
  learner :: 'l
  action_selector :: 'e
  update_step :: nat
  losses :: "real list"
  episode_reward :: real

text \<open>
  \<^verbatim>\<open>
  self.use_n_step = self.hyper_params.n_step > 1
  self.transition_queue = deque(maxlen=self.hyper_params.n_step)
  self.update_step = 0
  \<close>
  A deque with \<^verbatim>\<open>maxlen\<close> drops elements from the left when an append makes it longer
  than \<^verbatim>\<open>maxlen\<close>.
\<close>

definition use_n_step :: "hyper_params \<Rightarrow> bool" where
  "use_n_step hp = (hp_n_step hp > 1)"

definition deque_append :: "nat \<Rightarrow> 'x \<Rightarrow> 'x list \<Rightarrow> 'x list" where
  "deque_append maxlen x q = (let q' = q @ [x] in drop (length q' - maxlen) q')"

definition new_agent :: "'b \<Rightarrow> 'l \<Rightarrow> 'e \<Rightarrow> ('s, 'a, 'b, 'l, 'e) agent" where
  "new_agent buf lrn sel =
     \<lparr>step = 0, transition_queue = [], replay_buffer = buf, learner = lrn,
      action_selector = sel, update_step = 0, losses = [], episode_reward = 0\<rparr>"

text \<open>
  The first half of the loop body, given the transition \<open>t\<close> that \<^verbatim>\<open>self.step\<close>
  returned:
  \<^verbatim>\<open>
  episode_reward = episode_reward + reward
  step = step + 1
  if self.use_n_step:
      transition = [state, action, reward, next_state, done]
      self.transition_queue.append(transition)
      if len(self.transition_queue) == self.hyper_params.n_step:
          n_step_transition = preprocess_nstep(self.transition_queue, self.hyper_params.gamma)
          self.replay_buffer.add(*n_step_transition)
  else:
      self.replay_buffer.add(state, action, reward, next_state, done)
  \<close>
\<close>

definition store_transition ::
  "(('s, 'a) transition, 'b, 'x, 'l, 'i, 'e) collaborators \<Rightarrow> hyper_params \<Rightarrow>
   ('s, 'a) transition \<Rightarrow> ('s, 'a, 'b, 'l, 'e) agent \<Rightarrow> error + ('s, 'a, 'b, 'l, 'e) agent"
where
  "store_transition c hp t s =
     (let s1 = s\<lparr>episode_reward := episode_reward s + t_reward t, step := step s + 1\<rparr>
      in if use_n_step hp then
           let q = deque_append (hp_n_step hp) t (transition_queue s1);
               s2 = s1\<lparr>transition_queue := q\<rparr>
           in if length q = hp_n_step hp then
                (case preprocess_nstep q (hp_gamma hp) of
                   Inl e \<Rightarrow> Inl e
                 | Inr n_step_transition \<Rightarrow>
                     Inr (s2\<lparr>replay_buffer := buffer_add c n_step_transition (replay_buffer s2)\<rparr>))
              else Inr s2
         else Inr (s1\<lparr>replay_buffer := buffer_add c t (replay_buffer s1)\<rparr>))"

text \<open>
  The second half of the loop body:
  \<^verbatim>\<open>
  if len(self.replay_buffer) >= self.hyper_params.update_starting_point:
      if step % self.hyper_params.train_freq == 0:
          experience = self.replay_buffer.sample()
          info = self.learner.update_model(self._preprocess_experience(experience))
          self.update_step = self.update_step + 1
          losses.append(info[0])
          if self.hyper_params.use_per:
              indices, new_priorities = info[-2:]
              self.replay_buffer.update_priorities(indices, new_priorities)
          self.action_selector.decay_epsilon()
  \<close>
  \<open>do_update\<close> is the block under the two conditions. Python's \<^verbatim>\<open>%\<close> raises
  ZeroDivisionError for a zero divisor and agrees with \<open>mod\<close> on the integers
  otherwise.
\<close>

definition do_update ::
  "(('s, 'a) transition, 'b, 'x, 'l, 'i, 'e) collaborators \<Rightarrow> hyper_params \<Rightarrow>
   ('s, 'a, 'b, 'l, 'e) agent \<Rightarrow> ('s, 'a, 'b, 'l, 'e) agent"
where
  "do_update c hp s =
     (let experience = buffer_sample c (replay_buffer s)
      in (case update_model c experience (learner s) of (learner', loss, priorities) \<Rightarrow>
        let s1 = s\<lparr>learner := learner', update_step := update_step s + 1,
                   losses := losses s @ [loss]\<rparr>;
            s2 = (if hp_use_per hp
                  then s1\<lparr>replay_buffer :=
                            buffer_update_priorities c priorities (replay_buffer s1)\<rparr>
                  else s1)
        in s2\<lparr>action_selector := decay_epsilon c (action_selector s2)\<rparr>))"

definition maybe_update ::
  "(('s, 'a) transition, 'b, 'x, 'l, 'i, 'e) collaborators \<Rightarrow> hyper_params \<Rightarrow>
   ('s, 'a, 'b, 'l, 'e) agent \<Rightarrow> error + ('s, 'a, 'b, 'l, 'e) agent"
where
  "maybe_update c hp s =
     (if int (buffer_len c (replay_buffer s)) \<ge> hp_update_starting_point hp then
        if hp_train_freq hp = 0 then Inl ZeroDivisionError
        else if int (step s) mod hp_train_freq hp = 0 then Inr (do_update c hp s)
        else Inr s
      else Inr s)"

definition train_step ::
  "(('s, 'a) transition, 'b, 'x, 'l, 'i, 'e) collaborators \<Rightarrow> hyper_params \<Rightarrow>
   ('s, 'a) transition \<Rightarrow> ('s, 'a, 'b, 'l, 'e) agent \<Rightarrow> error + ('s, 'a, 'b, 'l, 'e) agent"
where
  "train_step c hp t s =
     (case store_transition c hp t s of Inl e \<Rightarrow> Inl e | Inr s' \<Rightarrow> maybe_update c hp s')"

text \<open>
  The environment is outside the repository's files: its answers are an input, one
  list of transitions per episode, in the order in which \<^verbatim>\<open>self.step\<close> returns them.
  \<^verbatim>\<open>while not done\<close> runs the body, then looks at the flag of the transition just
  processed. A list that ends before a transition with \<open>done = True\<close> stands for an
  episode that is still running: the model answers \<open>TraceEnded\<close>.
\<close>

fun run_episode ::
  "(('s, 'a) transition, 'b, 'x, 'l, 'i, 'e) collaborators \<Rightarrow> hyper_params \<Rightarrow>
   ('s, 'a) transition list \<Rightarrow> ('s, 'a, 'b, 'l, 'e) agent \<Rightarrow> error + ('s, 'a, 'b, 'l, 'e) agent"
where
  "run_episode c hp [] s = Inl TraceEnded"
| "run_episode c hp (t # ts) s =
     (case train_step c hp t s of
        Inl e \<Rightarrow> Inl e
      | Inr s' \<Rightarrow> if t_done t then Inr s' else run_episode c hp ts s')"

text \<open>
  \<^verbatim>\<open>
  step = 0
  for episode_i in range(self.experiment_info.total_num_episodes):
      state = self.env.reset()
      losses = []
      episode_reward = 0
      done = False
      while not done: ...
  \<close>
  Printing, logging, the test rollout on a copy of the policy and saving parameters
  follow each episode; they touch none of the fields of the state and are left out.
\<close>

fun train_episodes ::
  "(('s, 'a) transition, 'b, 'x, 'l, 'i, 'e) collaborators \<Rightarrow> hyper_params \<Rightarrow> nat \<Rightarrow>
   ('s, 'a) transition list list \<Rightarrow> ('s, 'a, 'b, 'l, 'e) agent \<Rightarrow> error + ('s, 'a, 'b, 'l, 'e) agent"
where
  "train_episodes c hp 0 episodes s = Inr s"
| "train_episodes c hp (Suc k) [] s = Inl TraceEnded"
| "train_episodes c hp (Suc k) (ep # episodes) s =
     (case run_episode c hp ep (s\<lparr>losses := [], episode_reward := 0\<rparr>) of
        Inl e \<Rightarrow> Inl e
      | Inr s' \<Rightarrow> train_episodes c hp k episodes s')"

definition train ::
  "(('s, 'a) transition, 'b, 'x, 'l, 'i, 'e) collaborators \<Rightarrow> hyper_params \<Rightarrow> nat \<Rightarrow>
   ('s, 'a) transition list list \<Rightarrow> ('s, 'a, 'b, 'l, 'e) agent \<Rightarrow> error + ('s, 'a, 'b, 'l, 'e) agent"
where
  "train c hp total_num_episodes episodes s =
     train_episodes c hp total_num_episodes episodes (s\<lparr>step := 0\<rparr>)"

text \<open>
  Modelled from the spec: the classes ReplayBuffer, the learner and EpsGreedy are not
  among the repository's files; section 6 of the specification gives their contract
  (\<open>add\<close>, \<open>sample\<close>, \<open>len\<close>, \<open>update_priorities\<close>, \<open>update_model\<close>,
  \<open>decay_epsilon\<close>). \<open>list_collab\<close> is one instance of that contract, used to run the
  loop on concrete inputs: the buffer is the list of the stored transitions in the
  order of their storage, a sample is the whole buffer, the learner counts its updates
  and reports loss 0, and epsilon halves at each decay.
\<close>

definition list_collab ::
  "(('s, 'a) transition, ('s, 'a) transition list, ('s, 'a) transition list, nat, unit, real)
     collaborators"
where
  "list_collab =
     \<lparr>buffer_add = (\<lambda>t b. b @ [t]), buffer_len = length, buffer_sample = (\<lambda>b. b),
      buffer_update_priorities = (\<lambda>p b. b), update_model = (\<lambda>x l. (Suc l, 0, ())),
      decay_epsilon = (\<lambda>eps. eps / 2)\<rparr>"

text \<open>
  The condition of section 4.5 under which an update fires, from the specification's
  words: the buffer holds at least the warm-up threshold and the step counter is a
  multiple of the train frequency.
\<close>

definition spec_update_fires ::
  "(('s, 'a) transition, 'b, 'x, 'l, 'i, 'e) collaborators \<Rightarrow> hyper_params \<Rightarrow>
   ('s, 'a, 'b, 'l, 'e) agent \<Rightarrow> bool"
where
  "spec_update_fires c hp s =
     (hp_update_starting_point hp \<le> int (buffer_len c (replay_buffer s))
      \<and> hp_train_freq hp dvd int (step s))"

section \<open>Properties of the n-step aggregation\<close>

lemma nstep_loop_snd:
  "snd (nstep_loop ts gamma (sa, d)) = foldl (\<lambda>discounted r. r + gamma * discounted) d (map t_reward ts)"
  by (induction ts gamma "(sa, d)" arbitrary: sa d rule: nstep_loop.induct)
     (simp_all add: t_reward_def)

lemma nstep_loop_fst:
  "ts \<noteq> [] \<Longrightarrow> fst (nstep_loop ts gamma (sa, d)) = Some (t_state (last ts), t_action (last ts))"
proof (induction ts gamma "(sa, d)" arbitrary: sa d rule: nstep_loop.induct)
  case (1 gamma)
  then show ?case by simp
next
  case (2 state action reward uu uv ts gamma sa discounted_reward)
  show ?case
  proof (cases "ts = []")
    case True
    then show ?thesis by (simp add: t_state_def t_action_def)
  next
    case False
    with 2 show ?thesis by simp
  qed
qed

lemma preprocess_nstep_nonempty:
  assumes "q \<noteq> []"
  shows "preprocess_nstep q gamma =
           Inr (t_state (hd q), t_action (hd q), spec_walk_return gamma (map t_reward q),
                t_next_state (last q), t_done (last q))"
proof -
  obtain sa d where run: "nstep_loop (rev q) gamma (None, 0) = (sa, d)"
    by (cases "nstep_loop (rev q) gamma (None, 0)") auto
  have "sa = fst (nstep_loop (rev q) gamma (None, 0))"
    by (simp add: run)
  then have sa: "sa = Some (t_state (hd q), t_action (hd q))"
    using assms by (simp add: nstep_loop_fst last_rev)
  have "d = snd (nstep_loop (rev q) gamma (None, 0))"
    by (simp add: run)
  then have d: "d = spec_walk_return gamma (map t_reward q)"
    by (simp add: nstep_loop_snd spec_walk_return_def rev_map)
  obtain s a r ns dn where l: "last q = (s, a, r, ns, dn)"
    by (cases "last q") auto
  show ?thesis
    using assms by (simp add: preprocess_nstep_def run sa d l t_next_state_def t_done_def)
qed

lemma walk_foldr: "spec_walk_return gamma rs = foldr (\<lambda>r discounted. r + gamma * discounted) rs 0"
  by (simp add: spec_walk_return_def foldr_conv_foldl)

lemma walk_Cons: "spec_walk_return gamma (r # rs) = r + gamma * spec_walk_return gamma rs"
  by (simp add: walk_foldr)

lemma oldest_first_Cons:
  "oldest_first_sum gamma (r # rs) = r + gamma * oldest_first_sum gamma rs"
proof -
  have "(\<Sum>i<Suc (length rs). gamma ^ i * (r # rs) ! i)
          = r + (\<Sum>i<length rs. gamma ^ Suc i * (r # rs) ! Suc i)"
    by (subst sum.lessThan_Suc_shift) simp
  also have "\<dots> = r + gamma * (\<Sum>i<length rs. gamma ^ i * rs ! i)"
    by (simp add: sum_distrib_left mult.assoc)
  finally show ?thesis by (simp add: oldest_first_sum_def)
qed

lemma walk_is_oldest_first: "spec_walk_return gamma rs = oldest_first_sum gamma rs"
proof (induction rs)
  case Nil
  show ?case by (simp add: spec_walk_return_def oldest_first_sum_def)
next
  case (Cons r rs)
  then show ?case by (simp add: walk_Cons oldest_first_Cons)
qed

text \<open>
  C2 (as stated): the aggregated reward is \<open>\<Sum>i<n. gamma^i * r (n - 1 - i)\<close>, the newest
  reward at weight \<open>gamma^0\<close>, 5.61 for rewards 1, 2, 3 and gamma 0.9. The code returns
  5.23 on that window: the loop visits the newest transition first, so the newest reward
  is multiplied by gamma most often.
\<close>

theorem nstep_newest_first_counterexample:
  "preprocess_nstep [(0::nat, 0::nat, 1, 1, False), (1, 0, 2, 2, False), (2, 0, 3, 3, False)] (9 / 10)
     = Inr (0, 0, 523 / 100, 3, False)
   \<and> spec_newest_first_sum (9 / 10) [1, 2, 3] = 561 / 100
   \<and> (523 / 100 :: real) \<noteq> 561 / 100"
  by (simp add: preprocess_nstep_def spec_newest_first_sum_def lessThan_Suc numeral_3_eq_3
        power2_eq_square)

text \<open>
  C2 (amended): for every window of length \<open>n > 0\<close> with rewards \<open>r 0 .. r (n - 1)\<close>
  indexed oldest to newest, the aggregated reward is \<open>\<Sum>i<n. gamma^i * r i\<close>: the oldest
  reward has weight \<open>gamma^0\<close> and the newest \<open>gamma^(n - 1)\<close>.
\<close>

theorem nstep_reward_oldest_first:
  assumes "length q = n" and "0 < n"
  shows "\<exists>t. preprocess_nstep q gamma = Inr t
             \<and> t_reward t = (\<Sum>i<n. gamma ^ i * t_reward (q ! i))"
proof -
  from assms have ne: "q \<noteq> []" by auto
  have "oldest_first_sum gamma (map t_reward q) = (\<Sum>i<n. gamma ^ i * t_reward (q ! i))"
    using assms(1) by (simp add: oldest_first_sum_def)
  then show ?thesis
    using ne by (simp add: preprocess_nstep_nonempty walk_is_oldest_first t_reward_def)
qed

theorem nstep_reward_oldest_first_witness:
  "length [(0::nat, 0::nat, 1::real, 1::nat, False), (1, 0, 2, 2, False), (2, 0, 3, 3, False)] = 3
   \<and> (0::nat) < 3
   \<and> (\<exists>t. preprocess_nstep [(0::nat, 0::nat, 1, 1, False), (1, 0, 2, 2, False), (2, 0, 3, 3, False)] (9 / 10) = Inr t
          \<and> t_reward t = 523 / 100)"
  using nstep_reward_oldest_first
          [of "[(0::nat, 0::nat, 1, 1, False), (1, 0, 2, 2, False), (2, 0, 3, 3, False)]" 3 "9 / 10"]
  by (simp add: lessThan_Suc numeral_3_eq_3 t_reward_def power2_eq_square)

text \<open>
  C3: for every window of exactly \<open>n\<close> transitions (\<open>n > 0\<close>), the result carries the
  state and action of the oldest element, the next state and done flag of the newest,
  and as reward the value of the walk from the most recent element to the oldest with
  \<open>discounted = reward_i + gamma * discounted\<close> started at 0.
\<close>

theorem preprocess_nstep_window:
  assumes "length q = n" and "0 < n"
  shows "preprocess_nstep q gamma =
           Inr (t_state (q ! 0), t_action (q ! 0), spec_walk_return gamma (map t_reward q),
                t_next_state (q ! (n - 1)), t_done (q ! (n - 1)))"
proof -
  from assms have ne: "q \<noteq> []" by auto
  then have "hd q = q ! 0" and "last q = q ! (n - 1)"
    using assms(1) by (simp_all add: hd_conv_nth last_conv_nth)
  then show ?thesis
    using preprocess_nstep_nonempty [OF ne, of gamma] by simp
qed

theorem preprocess_nstep_window_witness:
  "length [(10::nat, 7::nat, 1::real, 11::nat, False), (11, 8, 2, 12, True)] = 2
   \<and> (0::nat) < 2
   \<and> preprocess_nstep [(10::nat, 7::nat, 1, 11, False), (11, 8, 2, 12, True)] (1 / 2)
       = Inr (10, 7, 2, 12, True)"
  using preprocess_nstep_window [of "[(10::nat, 7::nat, 1, 11, False), (11, 8, 2, 12, True)]" 2 "1 / 2"]
  by (simp add: t_state_def t_action_def t_reward_def t_next_state_def t_done_def
        spec_walk_return_def)

section \<open>Properties of the target network synchronisation\<close>

lemma soft_update_loop_other:
  "a \<notin> snd ` set ps \<Longrightarrow> soft_update_loop ps tau h a = h a"
  by (induction ps tau h rule: soft_update_loop.induct) auto

lemma hard_update_loop_other:
  "a \<notin> snd ` set ps \<Longrightarrow> hard_update_loop ps h a = h a"
  by (induction ps h rule: hard_update_loop.induct) auto



lemma zip_snd_subset: "snd ` set (zip xs ys) \<subseteq> set ys"
  by (auto dest: set_zip_rightD)




text \<open>
  C9 (as stated): for every pair of aligned networks, every parameter of the live
  network is unchanged by hard\_update and soft\_update. For a live network \<open>[0, 1]\<close>
  and a target network \<open>[1, 2]\<close>, which share the parameter at address 1, that
  parameter of the live network holds 8 before the call, 4 after hard\_update and 6
  after soft\_update with \<open>tau = 1/2\<close>.
\<close>

theorem target_sync_shared_parameter_counterexample:
  "(1::nat) \<in> set [0, 1] \<and> example_store 1 = 8
   \<and> hard_update [0, 1] [1, 2] example_store 1 = 4
   \<and> soft_update [0, 1] [1, 2] (1 / 2) example_store 1 = 6"
  by (simp add: hard_update_def soft_update_def example_store_def)

text \<open>
  C9 (amended): for every pair of aligned networks and every \<open>tau\<close>, hard\_update and
  soft\_update write the target network's parameters only: every address that is not a
  parameter of the target network keeps its data. Hence, when the live network shares
  no parameter with the target network, every parameter of the live network is
  unchanged after either operation.
\<close>

theorem target_sync_frame:
  "(\<forall>a. a \<notin> set target_network \<longrightarrow>
       soft_update network target_network tau h a = h a
       \<and> hard_update network target_network h a = h a)
   \<and> (set network \<inter> set target_network = {} \<longrightarrow>
        (\<forall>p\<in>set network.
           soft_update network target_network tau h p = h p
           \<and> hard_update network target_network h p = h p))"
proof -
  have other: "soft_update network target_network tau h a = h a
               \<and> hard_update network target_network h a = h a"
    if "a \<notin> set target_network" for a
  proof -
    have "a \<notin> snd ` set (zip network target_network)"
      using that zip_snd_subset [of network target_network] by blast
    then show ?thesis
      by (simp add: soft_update_def hard_update_def soft_update_loop_other hard_update_loop_other)
  qed
  moreover have "p \<notin> set target_network"
    if "set network \<inter> set target_network = {}" and "p \<in> set network" for p
    using that by blast
  ultimately show ?thesis by blast
qed

theorem target_sync_frame_witness:
  "set [0::nat, 1] \<inter> set [2, 3] = {}
   \<and> (7::nat) \<notin> set [2, 3]
   \<and> soft_update [0, 1] [2, 3] (1 / 4) (\<lambda>a. real a) 0 = 0
   \<and> soft_update [0, 1] [2, 3] (1 / 4) (\<lambda>a. real a) 1 = 1
   \<and> hard_update [0, 1] [2, 3] (\<lambda>a. real a) 0 = 0
   \<and> hard_update [0, 1] [2, 3] (\<lambda>a. real a) 1 = 1
   \<and> soft_update [0, 1] [2, 3] (1 / 4) (\<lambda>a. real a) 7 = 7
   \<and> hard_update [0, 1] [2, 3] (\<lambda>a. real a) 7 = 7"
  using target_sync_frame
          [where network = "[0, 1]" and target_network = "[2, 3]" and tau = "1 / 4"
             and h = "\<lambda>a. real a"]
  by simp

section \<open>Properties of the quantile Huber loss\<close>

lemma huber_where_nonneg: "0 \<le> huber_where x 1"
  by (auto simp: huber_where_def)

text \<open>
  C8 (as stated): with \<open>k = 1\<close> the loss equals \<open>0.5 * x^2\<close> only when \<open>\<bar>x\<bar> < 1\<close>.
  At \<open>x = 1\<close> the code takes the linear branch, whose value \<open>1 - 0.5\<close> is
  \<open>0.5 * 1^2\<close>: the loss equals \<open>0.5 * x^2\<close> there although \<open>\<bar>x\<bar> < 1\<close> fails.
\<close>

theorem huber_quadratic_only_below_one_counterexample:
  "quantile_huber_loss [1] 1 = [0.5 * 1 ^ 2] \<and> \<not> \<bar>1::real\<bar> < 1"
  by (simp add: quantile_huber_loss_def huber_where_def)

text \<open>
  C8 (amended): with \<open>k = 1\<close>, every entry of the loss is non-negative, is
  \<open>0.5 * x^2\<close> where \<open>\<bar>x\<bar> < 1\<close> and is \<open>\<bar>x\<bar> - 0.5\<close> where \<open>\<bar>x\<bar> \<ge> 1\<close>.
\<close>

theorem quantile_huber_loss_k1:
  assumes "i < length x"
  shows "0 \<le> quantile_huber_loss x 1 ! i
         \<and> (\<bar>x ! i\<bar> < 1 \<longrightarrow> quantile_huber_loss x 1 ! i = 0.5 * (x ! i) ^ 2)
         \<and> (\<bar>x ! i\<bar> \<ge> 1 \<longrightarrow> quantile_huber_loss x 1 ! i = \<bar>x ! i\<bar> - 0.5)"
proof -
  have nth: "quantile_huber_loss x 1 ! i = huber_where (x ! i) 1"
    using assms by (simp add: quantile_huber_loss_def)
  have "\<bar>x ! i\<bar> < 1 \<longrightarrow> huber_where (x ! i) 1 = 0.5 * (x ! i) ^ 2"
    by (simp add: huber_where_def)
  moreover have "\<bar>x ! i\<bar> \<ge> 1 \<longrightarrow> huber_where (x ! i) 1 = \<bar>x ! i\<bar> - 0.5"
    by (simp add: huber_where_def)
  ultimately show ?thesis
    unfolding nth using huber_where_nonneg [of "x ! i"] by blast
qed

theorem quantile_huber_loss_k1_witness:
  "(0::nat) < length [1 / 2, - 3 :: real]
   \<and> (1::nat) < length [1 / 2, - 3 :: real]
   \<and> \<bar>1 / 2 :: real\<bar> < 1 \<and> \<bar>- 3 :: real\<bar> \<ge> 1
   \<and> quantile_huber_loss [1 / 2, - 3] 1 ! 0 = 1 / 8
   \<and> quantile_huber_loss [1 / 2, - 3] 1 ! 1 = 5 / 2"
proof -
  have a: "(0::nat) < length [1 / 2, - 3 :: real]" by simp
  have b: "(1::nat) < length [1 / 2, - 3 :: real]" by simp
  show ?thesis
    using quantile_huber_loss_k1 [OF a] quantile_huber_loss_k1 [OF b]
    by (simp add: power2_eq_square)
qed

section \<open>Properties of the bootstrap targets\<close>

lemma dqn_target_q_nth:
  assumes "i < length rewards" and "length dones = length rewards"
    and "length next_q = length rewards"
  shows "dqn_target_q gamma n rewards dones next_q ! i
           = rewards ! i + (1 - dones ! i) * gamma ^ n * next_q ! i"
  using assms by (simp add: dqn_target_q_def)

lemma qr_target_z_nth:
  assumes "i < length rewards" and "length dones = length rewards"
    and "length next_z = length rewards"
  shows "qr_target_z gamma n rewards dones next_z ! i
           = map (\<lambda>z. rewards ! i + (1 - dones ! i) * gamma ^ n * z) (next_z ! i)"
  using assms by (simp add: qr_target_z_def)

lemma categorical_target_z_raw_nth:
  assumes "i < length rewards" and "length dones = length rewards"
  shows "categorical_target_z_raw gamma n support rewards dones ! i
           = map (\<lambda>z. rewards ! i + (1 - dones ! i) * gamma ^ n * z) support"
  using assms by (simp add: categorical_target_z_raw_def)

lemma categorical_target_z_nth:
  assumes "i < length rewards" and "length dones = length rewards"
  shows "categorical_target_z gamma n support v_min v_max rewards dones ! i
           = map (\<lambda>z. torch_clamp (rewards ! i + (1 - dones ! i) * gamma ^ n * z) v_min v_max)
               support"
proof -
  have "i < length (categorical_target_z_raw gamma n support rewards dones)"
    using assms by (simp add: categorical_target_z_raw_def)
  then show ?thesis
    using assms by (simp add: categorical_target_z_def categorical_target_z_raw_nth)
qed

text \<open>
  C4 (as stated): in each of the three losses the target of a sample with \<open>done = 1\<close>
  is the reward alone. CategoricalLoss clamps its target to \<open>[v_min, v_max]\<close>: a
  terminal sample with reward 20 and \<open>v_max = 10\<close> has the target 10 at every atom.
\<close>

theorem categorical_terminal_target_counterexample:
  "categorical_target_z (99 / 100) 3 [- 10, 0, 10] (- 10) 10 [20] [1] = [[10, 10, 10]]
   \<and> (10::real) \<noteq> 20"
  by (simp add: categorical_target_z_def categorical_target_z_raw_def torch_clamp_def)

text \<open>
  C4 (amended): DQNLoss and QRLoss compute the target
  \<open>reward + (1 - done) * gamma^n_step * bootstrap\<close>; CategoricalLoss computes the same
  expression with the support as bootstrap and then clamps every entry to
  \<open>[v_min, v_max]\<close>. Hence, for a sample with \<open>done = 1\<close>, the bootstrap term is zeroed
  out in all three: the DQN and QR targets are the reward alone, the categorical target
  is the reward before the clamp and the reward clamped to \<open>[v_min, v_max]\<close> after it,
  which is the reward itself when \<open>v_min \<le> reward \<le> v_max\<close>.
\<close>

theorem loss_targets_bootstrap:
  assumes "i < length rewards" and "length dones = length rewards"
    and "length next_q = length rewards" and "length next_z = length rewards"
  shows "dqn_target_q gamma n rewards dones next_q ! i
           = rewards ! i + (1 - dones ! i) * gamma ^ n * next_q ! i
         \<and> qr_target_z gamma n rewards dones next_z ! i
           = map (\<lambda>z. rewards ! i + (1 - dones ! i) * gamma ^ n * z) (next_z ! i)
         \<and> categorical_target_z gamma n support v_min v_max rewards dones ! i
           = map (\<lambda>z. torch_clamp (rewards ! i + (1 - dones ! i) * gamma ^ n * z) v_min v_max)
               support
         \<and> (dones ! i = 1 \<longrightarrow>
              dqn_target_q gamma n rewards dones next_q ! i = rewards ! i
              \<and> qr_target_z gamma n rewards dones next_z ! i
                  = replicate (length (next_z ! i)) (rewards ! i)
              \<and> categorical_target_z_raw gamma n support rewards dones ! i
                  = replicate (length support) (rewards ! i)
              \<and> categorical_target_z gamma n support v_min v_max rewards dones ! i
                  = replicate (length support) (torch_clamp (rewards ! i) v_min v_max)
              \<and> (v_min \<le> rewards ! i \<and> rewards ! i \<le> v_max \<longrightarrow>
                   categorical_target_z gamma n support v_min v_max rewards dones ! i
                     = replicate (length support) (rewards ! i)))"
proof -
  note d = dqn_target_q_nth [OF assms(1,2,3), of gamma n]
  note q = qr_target_z_nth [OF assms(1,2,4), of gamma n]
  note r = categorical_target_z_raw_nth [OF assms(1,2), of gamma n support]
  note c = categorical_target_z_nth [OF assms(1,2), of gamma n support v_min v_max]
  have t: "dones ! i = 1 \<longrightarrow>
             dqn_target_q gamma n rewards dones next_q ! i = rewards ! i
             \<and> qr_target_z gamma n rewards dones next_z ! i
                 = replicate (length (next_z ! i)) (rewards ! i)
             \<and> categorical_target_z_raw gamma n support rewards dones ! i
                 = replicate (length support) (rewards ! i)
             \<and> categorical_target_z gamma n support v_min v_max rewards dones ! i
                 = replicate (length support) (torch_clamp (rewards ! i) v_min v_max)
             \<and> (v_min \<le> rewards ! i \<and> rewards ! i \<le> v_max \<longrightarrow>
                  categorical_target_z gamma n support v_min v_max rewards dones ! i
                    = replicate (length support) (rewards ! i))"
    unfolding d q r c by (simp add: map_replicate_const torch_clamp_def)
  show ?thesis
    using d q c t by blast
qed

theorem loss_targets_bootstrap_witness:
  "(0::nat) < length [3::real] \<and> length [1::real] = length [3::real]
   \<and> length [7::real] = length [3::real] \<and> length [[1, 2::real]] = length [3::real]
   \<and> [1::real] ! 0 = 1 \<and> (- 10::real) \<le> [3] ! 0 \<and> [3::real] ! 0 \<le> 10
   \<and> dqn_target_q (9 / 10) 3 [3] [1] [7] ! 0 = 3
   \<and> qr_target_z (9 / 10) 3 [3] [1] [[1, 2]] ! 0 = [3, 3]
   \<and> categorical_target_z (9 / 10) 3 [- 10, 0, 10] (- 10) 10 [3] [1] ! 0 = [3, 3, 3]"
proof -
  have a: "(0::nat) < length [3::real]" by simp
  have b: "length [1::real] = length [3::real]" by simp
  have c: "length [7::real] = length [3::real]" by simp
  have d: "length [[1, 2::real]] = length [3::real]" by simp
  show ?thesis
    using loss_targets_bootstrap [OF a b c d, of "9 / 10" 3 "[- 10, 0, 10]" "- 10" 10]
    by (simp add: numeral_3_eq_3 torch_clamp_def)
qed

section \<open>Properties of the categorical projection\<close>

text \<open>
  Both calls of \<^verbatim>\<open>index_add_\<close> add their whole source to the zero tensor, so the
  total mass of the output is the sum of the two sources: every atom contributes its
  probability times \<open>(u - b) + (b - l) = u - l\<close>.
\<close>

lemma sum_list_add_at:
  "k < length xs \<Longrightarrow> sum_list (xs[k := xs ! k + v]) = sum_list xs + (v::real)"
proof (induction xs arbitrary: k)
  case Nil
  then show ?case by simp
next
  case (Cons x xs)
  then show ?case by (cases k) simp_all
qed

lemma index_add_length:
  "index_add self idx src = Inr r \<Longrightarrow> length r = length self"
  by (induction self idx src rule: index_add.induct) (auto split: if_splits)

lemma index_add_sum_list:
  "index_add self idx src = Inr r \<Longrightarrow> sum_list r = sum_list self + sum_list src"
proof (induction self idx src rule: index_add.induct)
  case (1 self)
  then show ?case by simp
next
  case (2 self i idx v src)
  from "2.prems" have rng: "0 \<le> i \<and> i < int (length self)"
    by (auto split: if_splits)
  with "2.prems" have "index_add (self[nat i := self ! nat i + v]) idx src = Inr r"
    by simp
  from "2.IH" [OF rng this] have "sum_list r = sum_list (self[nat i := self ! nat i + v]) + sum_list src" .
  moreover have "nat i < length self" using rng by linarith
  ultimately show ?case by (simp add: sum_list_add_at)
qed simp_all

lemma concat_view_as:
  "length flat = length (concat shape) \<Longrightarrow> concat (view_as shape flat) = flat"
  by (induction shape flat rule: view_as.induct) simp_all

lemma sum_list_map2_add:
  "sum_list (map (\<lambda>(x, y). f x y) (zip xs ys)) + sum_list (map (\<lambda>(x, y). g x y) (zip xs ys))
     = sum_list (map (\<lambda>(x, y). f x y + g x y :: real) (zip xs ys))"
  by (induction xs ys rule: list_induct2') simp_all

lemma row_weights:
  "map (\<lambda>(x, y). x * y) (zip nz (map (\<lambda>(x, y). x - y) (zip (map (\<lambda>b. real_of_int \<lceil>b\<rceil>) bs) bs)))
   = map (\<lambda>(n, b). n * (real_of_int \<lceil>b\<rceil> - b)) (zip nz bs)"
  by (induction nz bs rule: list_induct2') simp_all

lemma row_weights_floor:
  "map (\<lambda>(x, y). x * y) (zip nz (map (\<lambda>(x, y). x - y) (zip bs (map (\<lambda>b. real_of_int \<lfloor>b\<rfloor>) bs))))
   = map (\<lambda>(n, b). n * (b - real_of_int \<lfloor>b\<rfloor>)) (zip nz bs)"
  by (induction nz bs rule: list_induct2') simp_all

lemma tensor_weights:
  "sum_list (concat (tmap2 (*) next_z (tmap2 (-) (map (map (\<lambda>b. real_of_int \<lceil>b\<rceil>)) B) B)))
   + sum_list (concat (tmap2 (*) next_z (tmap2 (-) B (map (map (\<lambda>b. real_of_int \<lfloor>b\<rfloor>)) B))))
   = sum_list (concat (tmap2 (\<lambda>nz b. nz * real_of_int (\<lceil>b\<rceil> - \<lfloor>b\<rfloor>)) next_z B))"
proof (induction next_z B rule: list_induct2')
  case (4 nz next_z bs B)
  have row: "sum_list (map (\<lambda>(n, b). n * (real_of_int \<lceil>b\<rceil> - b)) (zip nz bs))
             + sum_list (map (\<lambda>(n, b). n * (b - real_of_int \<lfloor>b\<rfloor>)) (zip nz bs))
             = sum_list (map (\<lambda>(n, b). n * real_of_int (\<lceil>b\<rceil> - \<lfloor>b\<rfloor>)) (zip nz bs))"
    by (simp add: sum_list_map2_add algebra_simps)
  from 4 row show ?case
    by (simp add: tmap2_def row_weights row_weights_floor)
qed (simp_all add: tmap2_def)

lemma tmap2_map_right:
  "tmap2 f A (map (map g) B) = tmap2 (\<lambda>a b. f a (g b)) A B"
  by (simp add: tmap2_def zip_map2 comp_def case_prod_unfold)

lemma dist_projection_total_mass:
  assumes "dist_projection v_min delta_z next_z target_z offset = Inr proj_dist"
  shows "sum_list (concat proj_dist) = kept_mass v_min delta_z next_z target_z"
proof -
  let ?b = "map (map (\<lambda>tz. (tz - v_min) / delta_z)) target_z"
  let ?l = "map (map floor) ?b" and ?u = "map (map ceiling) ?b"
  let ?z = "replicate (length (concat next_z)) (0::real)"
  let ?src1 = "concat (tmap2 (*) next_z (tmap2 (-) (map (map of_int) ?u) ?b))"
  let ?src2 = "concat (tmap2 (*) next_z (tmap2 (-) ?b (map (map of_int) ?l)))"
  from assms obtain p1 p2 where
    p1: "index_add ?z (concat (tmap2 (+) ?l offset)) ?src1 = Inr p1"
    and p2: "index_add p1 (concat (tmap2 (+) ?u offset)) ?src2 = Inr p2"
    and out: "proj_dist = view_as next_z p2"
    by (auto simp: dist_projection_def Let_def simp del: map_map split: if_splits sum.splits)
  have "length p2 = length (concat next_z)"
    using index_add_length [OF p1] index_add_length [OF p2] by simp
  then have "concat proj_dist = p2"
    by (simp add: out concat_view_as)
  moreover have "sum_list ?z = 0"
    by (simp add: sum_list_replicate)
  then have "sum_list p2 = sum_list ?src1 + sum_list ?src2"
    using index_add_sum_list [OF p1] index_add_sum_list [OF p2] by linarith
  moreover have "sum_list ?src1 + sum_list ?src2
      = sum_list (concat (tmap2 (\<lambda>nz b. nz * real_of_int (\<lceil>b\<rceil> - \<lfloor>b\<rfloor>)) next_z ?b))"
    using tensor_weights [of next_z ?b] by (simp add: comp_def)
  ultimately show ?thesis
    by (simp add: kept_mass_def tmap2_map_right)
qed

text \<open>
  C1: the projection keeps the total mass of every row, also where
  \<open>b = (target_z - v_min) / delta_z\<close> is an integer. The code does not: for an integer
  \<open>b\<close> both weights \<open>u - b\<close> and \<open>b - l\<close> are 0, so the mass of that atom is added
  nowhere. Support \<open>[-1, 0, 1]\<close>, \<open>gamma = 1/2\<close>, \<open>n_step = 1\<close>, next-state
  distribution \<open>[1/4, 1/2, 1/4]\<close> in both rows: the terminal sample with reward 0 has
  all its targets on the atom 0 and is projected to the zero row; the sample with
  reward \<open>1/2\<close> and \<open>done = 0\<close> has the targets \<open>0, 1/2, 1\<close> and keeps only the mass
  of the middle atom, \<open>1/2\<close> in total.
\<close>

theorem dist_projection_loses_mass:
  "categorical_target_z (1 / 2) 1 [- 1, 0, 1] (- 1) 1 [0, 1 / 2] [1, 0]
     = [[0, 0, 0], [0, 1 / 2, 1]]
   \<and> dist_projection (- 1) 1 [[1 / 4, 1 / 2, 1 / 4], [1 / 4, 1 / 2, 1 / 4]]
       [[0, 0, 0], [0, 1 / 2, 1]] (offset_rows 2 3)
     = Inr [[0, 0, 0], [0, 1 / 4, 1 / 4]]
   \<and> sum_list [1 / 4, 1 / 2, 1 / 4 :: real] = 1
   \<and> sum_list [0, 0, 0 :: real] = 0
   \<and> sum_list [0, 1 / 4, 1 / 4 :: real] = 1 / 2"
  by (simp add: categorical_target_z_def categorical_target_z_raw_def torch_clamp_def
        dist_projection_def same_shape_def tmap2_def offset_rows_def numeral_3_eq_3
        numeral_2_eq_2)

section \<open>Properties of the training loop\<close>

lemma deque_append_length: "length (deque_append n x q) = min n (length q + 1)"
  by (simp add: deque_append_def Let_def)

lemma deque_append_short: "length q < n \<Longrightarrow> deque_append n x q = q @ [x]"
  by (simp add: deque_append_def Let_def)

lemma deque_append_full: "length q = n \<Longrightarrow> 0 < n \<Longrightarrow> deque_append n x q = tl q @ [x]"
  by (cases q) (simp_all add: deque_append_def Let_def)

lemma deque_append_nonempty: "0 < n \<Longrightarrow> deque_append n x q \<noteq> []"
proof -
  assume "0 < n"
  then have "0 < length (deque_append n x q)"
    by (simp add: deque_append_length)
  then show ?thesis by auto
qed

lemma do_update_fields:
  "transition_queue (do_update c hp s) = transition_queue s"
  "step (do_update c hp s) = step s"
  "update_step (do_update c hp s) = update_step s + 1"
  "learner (do_update c hp s) = fst (update_model c (buffer_sample c (replay_buffer s)) (learner s))"
  "action_selector (do_update c hp s) = decay_epsilon c (action_selector s)"
  by (simp_all add: do_update_def Let_def split: prod.splits)

lemma maybe_update_queue:
  "maybe_update c hp s = Inr s' \<Longrightarrow> transition_queue s' = transition_queue s"
  by (auto simp: maybe_update_def do_update_fields split: if_splits)

lemma store_transition_n_step:
  assumes "use_n_step hp"
  shows "\<exists>agg. preprocess_nstep (deque_append (hp_n_step hp) t (transition_queue s)) (hp_gamma hp) = Inr agg
     \<and> store_transition c hp t s =
         Inr (s\<lparr>episode_reward := episode_reward s + t_reward t, step := step s + 1,
                transition_queue := deque_append (hp_n_step hp) t (transition_queue s),
                replay_buffer :=
                  (if length (transition_queue s) + 1 \<ge> hp_n_step hp
                   then buffer_add c agg (replay_buffer s) else replay_buffer s)\<rparr>)"
proof -
  let ?q = "deque_append (hp_n_step hp) t (transition_queue s)"
  have pos: "0 < hp_n_step hp" using assms by (simp add: use_n_step_def)
  have ne: "?q \<noteq> []" using pos by (rule deque_append_nonempty)
  have len: "length ?q = hp_n_step hp \<longleftrightarrow> length (transition_queue s) + 1 \<ge> hp_n_step hp"
    by (auto simp: deque_append_length)
  show ?thesis
    using assms len by (simp add: preprocess_nstep_nonempty [OF ne] store_transition_def Let_def)
qed

lemma store_transition_plain:
  assumes "\<not> use_n_step hp"
  shows "store_transition c hp t s =
         Inr (s\<lparr>episode_reward := episode_reward s + t_reward t, step := step s + 1,
                replay_buffer := buffer_add c t (replay_buffer s)\<rparr>)"
  using assms by (simp add: store_transition_def Let_def)

lemma store_transition_total:
  "\<exists>s1. store_transition c hp t s = Inr s1 \<and> step s1 = step s + 1
        \<and> update_step s1 = update_step s \<and> learner s1 = learner s
        \<and> action_selector s1 = action_selector s
        \<and> transition_queue s1 = (if use_n_step hp then deque_append (hp_n_step hp) t (transition_queue s) else transition_queue s)"
proof (cases "use_n_step hp")
  case True
  from store_transition_n_step [OF True, of t s c] obtain agg where
    "store_transition c hp t s =
         Inr (s\<lparr>episode_reward := episode_reward s + t_reward t, step := step s + 1,
                transition_queue := deque_append (hp_n_step hp) t (transition_queue s),
                replay_buffer :=
                  (if length (transition_queue s) + 1 \<ge> hp_n_step hp
                   then buffer_add c agg (replay_buffer s) else replay_buffer s)\<rparr>)"
    by blast
  then show ?thesis using True by simp
next
  case False
  then show ?thesis by (simp add: store_transition_plain)
qed

lemma train_step_queue:
  assumes "train_step c hp t s = Inr s'"
  shows "transition_queue s' = (if use_n_step hp then deque_append (hp_n_step hp) t (transition_queue s) else transition_queue s)"
proof -
  obtain s1 where s1: "store_transition c hp t s = Inr s1"
    and q: "transition_queue s1 = (if use_n_step hp then deque_append (hp_n_step hp) t (transition_queue s) else transition_queue s)"
    using store_transition_total [of c hp t s] by blast
  from assms s1 have "maybe_update c hp s1 = Inr s'" by (simp add: train_step_def)
  then show ?thesis using q by (simp add: maybe_update_queue)
qed

lemma train_step_queue_length:
  assumes "train_step c hp t s = Inr s'" and "use_n_step hp"
    and "length (transition_queue s) \<le> hp_n_step hp"
  shows "length (transition_queue s) \<le> length (transition_queue s')
         \<and> length (transition_queue s') \<le> hp_n_step hp"
  using train_step_queue [OF assms(1)] assms(2,3) by (simp add: deque_append_length)

lemma run_episode_queue_length:
  "run_episode c hp ts s = Inr s' \<Longrightarrow> use_n_step hp \<Longrightarrow>
   length (transition_queue s) \<le> hp_n_step hp \<Longrightarrow>
   length (transition_queue s) \<le> length (transition_queue s')
   \<and> length (transition_queue s') \<le> hp_n_step hp"
proof (induction ts arbitrary: s)
  case Nil
  then show ?case by simp
next
  case (Cons t ts)
  from Cons.prems(1) obtain s1 where s1: "train_step c hp t s = Inr s1"
    by (cases "train_step c hp t s") auto
  note l1 = train_step_queue_length [OF s1 Cons.prems(2,3)]
  show ?case
  proof (cases "t_done t")
    case True
    with Cons.prems(1) s1 have "s' = s1" by simp
    then show ?thesis using l1 by simp
  next
    case False
    with Cons.prems(1) s1 have "run_episode c hp ts s1 = Inr s'" by simp
    from Cons.IH [OF this Cons.prems(2)] l1 show ?thesis by simp
  qed
qed

lemma train_episodes_queue_length:
  "train_episodes c hp k episodes s = Inr s' \<Longrightarrow> use_n_step hp \<Longrightarrow>
   length (transition_queue s) \<le> hp_n_step hp \<Longrightarrow>
   length (transition_queue s) \<le> length (transition_queue s')
   \<and> length (transition_queue s') \<le> hp_n_step hp"
proof (induction c hp k episodes s rule: train_episodes.induct)
  case (1 c hp episodes s)
  then show ?case by simp
next
  case (2 c hp k s)
  then show ?case by simp
next
  case (3 c hp k ep episodes s)
  let ?s0 = "s\<lparr>losses := [], episode_reward := 0\<rparr>"
  from "3.prems"(1) obtain s1 where s1: "run_episode c hp ep ?s0 = Inr s1"
    by (cases "run_episode c hp ep ?s0") auto
  have "length (transition_queue ?s0) \<le> hp_n_step hp" using "3.prems"(3) by simp
  note l1 = run_episode_queue_length [OF s1 "3.prems"(2) this]
  from "3.prems"(1) s1 have "train_episodes c hp k episodes s1 = Inr s'" by simp
  from "3.IH" [OF s1 this "3.prems"(2)] l1 show ?case by simp
qed


text \<open>
  C5 (as stated): once the window has been full and one aggregate is stored, no further
  aggregate is stored until \<open>n\<close> new transitions have been pushed. With \<open>n_step = 2\<close>
  and an episode of three transitions the buffer ends with two aggregates: the first of
  the transitions 1 and 2, the second of the transitions 2 and 3, stored after a single
  new push.
\<close>

theorem n_step_batch_window_counterexample:
  "train list_collab
     \<lparr>hp_n_step = 2, hp_gamma = 1 / 2, hp_update_starting_point = 100, hp_train_freq = 1,
      hp_use_per = False\<rparr>
     1 [[(0::nat, 0::nat, 1, 1, False), (1, 0, 2, 2, False), (2, 0, 4, 3, True)]]
     (new_agent [] 0 1)
   = Inr \<lparr>step = 3, transition_queue = [(1, 0, 2, 2, False), (2, 0, 4, 3, True)],
          replay_buffer = [(0, 0, 2, 2, False), (1, 0, 4, 3, True)], learner = 0,
          action_selector = 1, update_step = 0, losses = [], episode_reward = 7\<rparr>"
  by (simp add: train_def new_agent_def train_step_def store_transition_def maybe_update_def
        list_collab_def use_n_step_def deque_append_def preprocess_nstep_def t_done_def
        t_reward_def)

text \<open>
  C5 (amended): with n-step enabled the window slides. A push that leaves the window
  shorter than \<open>n\<close> stores nothing; the push that first fills the window stores one
  aggregated transition of the window; and every push onto a full window evicts the
  oldest element and stores one aggregated transition of the \<open>n\<close> most recent
  transitions, so from then on one aggregate is stored at every step.
\<close>

theorem n_step_window_slides:
  assumes "use_n_step hp"
  shows "(length (transition_queue s) + 1 < hp_n_step hp \<longrightarrow>
            store_transition c hp t s =
              Inr (s\<lparr>episode_reward := episode_reward s + t_reward t, step := step s + 1,
                     transition_queue := transition_queue s @ [t]\<rparr>))
         \<and> (length (transition_queue s) + 1 = hp_n_step hp \<longrightarrow>
              (\<exists>agg. preprocess_nstep (transition_queue s @ [t]) (hp_gamma hp) = Inr agg
                 \<and> store_transition c hp t s =
                     Inr (s\<lparr>episode_reward := episode_reward s + t_reward t, step := step s + 1,
                            transition_queue := transition_queue s @ [t],
                            replay_buffer := buffer_add c agg (replay_buffer s)\<rparr>)))
         \<and> (length (transition_queue s) = hp_n_step hp \<longrightarrow>
              (\<exists>agg. preprocess_nstep (tl (transition_queue s) @ [t]) (hp_gamma hp) = Inr agg
                 \<and> store_transition c hp t s =
                     Inr (s\<lparr>episode_reward := episode_reward s + t_reward t, step := step s + 1,
                            transition_queue := tl (transition_queue s) @ [t],
                            replay_buffer := buffer_add c agg (replay_buffer s)\<rparr>)))"
proof -
  let ?n = "hp_n_step hp" and ?q = "transition_queue s"
  have pos: "0 < ?n" using assms by (simp add: use_n_step_def)
  note st = store_transition_n_step [OF assms, of t s c]
  have short: "deque_append ?n t ?q = ?q @ [t]" if "length ?q + 1 \<le> ?n"
    using that by (simp add: deque_append_short)
  have full: "deque_append ?n t ?q = tl ?q @ [t]" if "length ?q = ?n"
    using that pos by (simp add: deque_append_full)
  have a: ?thesis if "length ?q + 1 < ?n"
    using st that short by auto
  have b: ?thesis if "length ?q + 1 = ?n"
    using st that short by auto
  have c: ?thesis if "length ?q = ?n"
    using st that full by auto
  have d: ?thesis if "\<not> length ?q + 1 < ?n" "length ?q + 1 \<noteq> ?n" "length ?q \<noteq> ?n"
    using that by simp
  from a b c d show ?thesis by blast
qed

theorem n_step_window_slides_witness:
  "use_n_step \<lparr>hp_n_step = 2, hp_gamma = 1 / 2, hp_update_starting_point = 100,
                hp_train_freq = 1, hp_use_per = False\<rparr>
   \<and> store_transition list_collab
       \<lparr>hp_n_step = 2, hp_gamma = 1 / 2, hp_update_starting_point = 100, hp_train_freq = 1,
        hp_use_per = False\<rparr>
       (2::nat, 0::nat, 4, 3, True)
       \<lparr>step = 2, transition_queue = [(0, 0, 1, 1, False), (1, 0, 2, 2, False)],
        replay_buffer = [(0, 0, 2, 2, False)], learner = 0::nat, action_selector = 1::real,
        update_step = 0, losses = [], episode_reward = 3\<rparr>
     = Inr \<lparr>step = 3, transition_queue = [(1, 0, 2, 2, False), (2, 0, 4, 3, True)],
            replay_buffer = [(0, 0, 2, 2, False), (1, 0, 4, 3, True)], learner = 0,
            action_selector = 1, update_step = 0, losses = [], episode_reward = 7\<rparr>"
proof -
  let ?hp = "\<lparr>hp_n_step = 2, hp_gamma = 1 / 2, hp_update_starting_point = 100,
              hp_train_freq = 1, hp_use_per = False\<rparr>"
  have u: "use_n_step ?hp" by (simp add: use_n_step_def)
  show ?thesis
    using u n_step_window_slides [OF u, of
        "\<lparr>step = 2, transition_queue = [(0::nat, 0::nat, 1, 1, False), (1, 0, 2, 2, False)],
          replay_buffer = [(0::nat, 0::nat, 2, 2, False)], learner = 0::nat, action_selector = 1::real,
          update_step = 0, losses = [], episode_reward = 3\<rparr>"
        "list_collab" "(2, 0, 4, 3, True)"]
    by (simp add: preprocess_nstep_def list_collab_def t_reward_def)
qed

text \<open>
  C6: at an environment step an update (sample, update\_model, increment of the update
  counter) fires if and only if, after the transition of the step is stored, the buffer
  holds at least \<open>update_starting_point\<close> transitions and the step counter is a
  multiple of \<open>train_freq\<close>. A fired update decays epsilon once; a step without
  update leaves the learner, the update counter and epsilon as they were (or, for
  \<open>train_freq = 0\<close> and a warm buffer, stops with ZeroDivisionError).
\<close>

theorem update_gating:
  "\<exists>s1. store_transition c hp t s = Inr s1
     \<and> update_step s1 = update_step s \<and> learner s1 = learner s
     \<and> action_selector s1 = action_selector s
     \<and> ((\<exists>s'. train_step c hp t s = Inr s' \<and> update_step s' = update_step s + 1)
           \<longleftrightarrow> spec_update_fires c hp s1)
     \<and> (spec_update_fires c hp s1 \<longrightarrow>
          (\<exists>s'. train_step c hp t s = Inr s'
             \<and> update_step s' = update_step s + 1
             \<and> learner s' = fst (update_model c (buffer_sample c (replay_buffer s1)) (learner s))
             \<and> action_selector s' = decay_epsilon c (action_selector s)))
     \<and> (\<not> spec_update_fires c hp s1 \<longrightarrow>
          train_step c hp t s = Inr s1 \<or> train_step c hp t s = Inl ZeroDivisionError)"
proof -
  obtain s1 where s1: "store_transition c hp t s = Inr s1" and st: "step s1 = step s + 1"
    and keep: "update_step s1 = update_step s" "learner s1 = learner s"
      "action_selector s1 = action_selector s"
    using store_transition_total [of c hp t s] by blast
  have ts: "train_step c hp t s = maybe_update c hp s1"
    by (simp add: train_step_def s1)
  have pos: "0 < int (step s1)" using st by simp
  have multiple: "hp_train_freq hp dvd int (step s1)
                    \<longleftrightarrow> hp_train_freq hp \<noteq> 0 \<and> int (step s1) mod hp_train_freq hp = 0"
    using pos by (auto simp: mod_eq_0_iff_dvd)
  have fire: "maybe_update c hp s1 = Inr (do_update c hp s1)" if "spec_update_fires c hp s1"
    using that multiple by (simp add: maybe_update_def spec_update_fires_def)
  have idle: "maybe_update c hp s1 = Inr s1 \<or> maybe_update c hp s1 = Inl ZeroDivisionError"
    if "\<not> spec_update_fires c hp s1"
    using that multiple by (auto simp: maybe_update_def spec_update_fires_def)
  have iff: "(\<exists>s'. maybe_update c hp s1 = Inr s' \<and> update_step s' = update_step s + 1)
               \<longleftrightarrow> spec_update_fires c hp s1"
  proof (cases "spec_update_fires c hp s1")
    case True
    then show ?thesis using fire keep by (simp add: do_update_fields)
  next
    case False
    then show ?thesis using idle [OF False] keep by auto
  qed
  have fired: "\<exists>s'. maybe_update c hp s1 = Inr s'
             \<and> update_step s' = update_step s + 1
             \<and> learner s' = fst (update_model c (buffer_sample c (replay_buffer s1)) (learner s))
             \<and> action_selector s' = decay_epsilon c (action_selector s)"
    if "spec_update_fires c hp s1"
    using fire [OF that] keep by (simp add: do_update_fields)
  show ?thesis
    unfolding ts using s1 keep iff fired idle by blast
qed


theorem update_gating_witness:
  "spec_update_fires list_collab
     \<lparr>hp_n_step = 1, hp_gamma = 1 / 2, hp_update_starting_point = 1, hp_train_freq = 2,
      hp_use_per = False\<rparr>
     \<lparr>step = 2, transition_queue = [], replay_buffer = [(0::nat, 0::nat, 1, 1, False)],
      learner = 0::nat, action_selector = 1::real, update_step = 0, losses = [],
      episode_reward = 1\<rparr>
   \<and> (\<exists>s'. train_step list_collab
         \<lparr>hp_n_step = 1, hp_gamma = 1 / 2, hp_update_starting_point = 1, hp_train_freq = 2,
          hp_use_per = False\<rparr>
         (0::nat, 0::nat, 1, 1, False) ((new_agent [] 0 1)\<lparr>step := 1\<rparr>) = Inr s'
       \<and> update_step s' = 1 \<and> learner s' = 1 \<and> action_selector s' = 1 / 2)
   \<and> \<not> spec_update_fires list_collab
       \<lparr>hp_n_step = 1, hp_gamma = 1 / 2, hp_update_starting_point = 1, hp_train_freq = 2,
        hp_use_per = False\<rparr>
       \<lparr>step = 1, transition_queue = [], replay_buffer = [(0::nat, 0::nat, 1, 1, False)],
        learner = 0::nat, action_selector = 1::real, update_step = 0, losses = [],
        episode_reward = 1\<rparr>
   \<and> train_step list_collab
       \<lparr>hp_n_step = 1, hp_gamma = 1 / 2, hp_update_starting_point = 1, hp_train_freq = 2,
        hp_use_per = False\<rparr>
       (0::nat, 0::nat, 1, 1, False) (new_agent [] 0 1)
     = Inr \<lparr>step = 1, transition_queue = [], replay_buffer = [(0, 0, 1, 1, False)],
            learner = 0, action_selector = 1, update_step = 0, losses = [],
            episode_reward = 1\<rparr>"
proof -
  let ?hp = "\<lparr>hp_n_step = 1, hp_gamma = 1 / 2, hp_update_starting_point = 1,
              hp_train_freq = 2, hp_use_per = False\<rparr>"
  let ?t = "(0::nat, 0::nat, 1::real, 1::nat, False)"
  let ?c = "list_collab :: ((nat, nat) transition, (nat, nat) transition list,
                            (nat, nat) transition list, nat, unit, real) collaborators"
  let ?s = "(new_agent [] 0 1)\<lparr>step := 1\<rparr> ::
              (nat, nat, (nat, nat) transition list, nat, real) agent"
  let ?s1 = "\<lparr>step = 2, transition_queue = [], replay_buffer = [?t],
              learner = 0::nat, action_selector = 1::real, update_step = 0, losses = [],
              episode_reward = 1\<rparr>"
  let ?s1' = "\<lparr>step = 1, transition_queue = [], replay_buffer = [?t],
              learner = 0::nat, action_selector = 1::real, update_step = 0, losses = [],
              episode_reward = 1\<rparr>"
  have st: "store_transition ?c ?hp ?t ?s = Inr ?s1"
    by (simp add: store_transition_def new_agent_def use_n_step_def list_collab_def t_reward_def)
  have f: "spec_update_fires ?c ?hp ?s1"
    by (simp add: spec_update_fires_def list_collab_def)
  have nf: "\<not> spec_update_fires ?c ?hp ?s1'"
    by (simp add: spec_update_fires_def list_collab_def)
  from update_gating [of ?c ?hp ?t ?s] obtain s1 where
    s1: "store_transition ?c ?hp ?t ?s = Inr s1"
    and fire: "spec_update_fires ?c ?hp s1 \<longrightarrow>
          (\<exists>s'. train_step ?c ?hp ?t ?s = Inr s'
             \<and> update_step s' = update_step ?s + 1
             \<and> learner s' = fst (update_model ?c (buffer_sample ?c (replay_buffer s1)) (learner ?s))
             \<and> action_selector s' = decay_epsilon ?c (action_selector ?s))"
    by blast
  from s1 st have eq: "s1 = ?s1" by simp
  from fire f obtain s' where "train_step ?c ?hp ?t ?s = Inr s'"
    and "update_step s' = update_step ?s + 1"
    and "learner s' = fst (update_model ?c (buffer_sample ?c (replay_buffer s1)) (learner ?s))"
    and "action_selector s' = decay_epsilon ?c (action_selector ?s)"
    unfolding eq by blast
  then have fired: "\<exists>s'. train_step ?c ?hp ?t ?s = Inr s'
       \<and> update_step s' = 1 \<and> learner s' = 1 \<and> action_selector s' = 1 / 2"
    by (simp add: new_agent_def list_collab_def)
  have idle: "train_step ?c ?hp ?t (new_agent [] 0 1) = Inr ?s1'"
    by (simp add: train_step_def store_transition_def new_agent_def use_n_step_def
          maybe_update_def list_collab_def t_reward_def)
  from f fired nf idle show ?thesis by blast
qed

text \<open>
  C10: train never clears the transition queue. A step with n-step enabled only appends
  to it (the deque dropping its oldest element once it is full), and neither the start
  of an episode nor the storage of an aggregate touches it: over any number of
  episodes the queue never gets shorter, and a full queue stays full. So an aggregate
  can span two episodes: with \<open>n_step = 2\<close> and two episodes of one transition each,
  the stored aggregate has the state of the first episode's terminal transition, which
  sits at the non-final position of the window, and the next state of the second
  episode's transition.
\<close>

theorem transition_queue_never_cleared:
  assumes "use_n_step hp" and "length (transition_queue s) \<le> hp_n_step hp"
  shows "(\<forall>t s'. train_step c hp t s = Inr s' \<longrightarrow>
            transition_queue s' = deque_append (hp_n_step hp) t (transition_queue s))
         \<and> (\<forall>k episodes s'. train c hp k episodes s = Inr s' \<longrightarrow>
              length (transition_queue s) \<le> length (transition_queue s')
              \<and> length (transition_queue s') \<le> hp_n_step hp
              \<and> (length (transition_queue s) = hp_n_step hp \<longrightarrow>
                   length (transition_queue s') = hp_n_step hp))
         \<and> train list_collab
             \<lparr>hp_n_step = 2, hp_gamma = 1 / 2, hp_update_starting_point = 100,
              hp_train_freq = 1, hp_use_per = False\<rparr>
             2 [[(0::nat, 0::nat, 1, 1, True)], [(5, 0, 2, 6, True)]] (new_agent [] 0 1)
           = Inr \<lparr>step = 2, transition_queue = [(0, 0, 1, 1, True), (5, 0, 2, 6, True)],
                  replay_buffer = [(0, 0, 2, 6, True)], learner = 0, action_selector = 1,
                  update_step = 0, losses = [], episode_reward = 2\<rparr>"
proof -
  have one: "transition_queue s' = deque_append (hp_n_step hp) t (transition_queue s)"
    if "train_step c hp t s = Inr s'" for t s'
    using train_step_queue [OF that] assms(1) by simp
  have many: "length (transition_queue s) \<le> length (transition_queue s')
              \<and> length (transition_queue s') \<le> hp_n_step hp
              \<and> (length (transition_queue s) = hp_n_step hp \<longrightarrow>
                   length (transition_queue s') = hp_n_step hp)"
    if "train c hp k episodes s = Inr s'" for k episodes s'
  proof -
    from that have run: "train_episodes c hp k episodes (s\<lparr>step := 0\<rparr>) = Inr s'"
      by (simp add: train_def)
    have "length (transition_queue (s\<lparr>step := 0\<rparr>)) \<le> hp_n_step hp"
      using assms(2) by simp
    from train_episodes_queue_length [OF run assms(1) this] show ?thesis by auto
  qed
  have example: "train list_collab
             \<lparr>hp_n_step = 2, hp_gamma = 1 / 2, hp_update_starting_point = 100,
              hp_train_freq = 1, hp_use_per = False\<rparr>
             2 [[(0::nat, 0::nat, 1, 1, True)], [(5, 0, 2, 6, True)]] (new_agent [] 0 1)
           = Inr \<lparr>step = 2, transition_queue = [(0, 0, 1, 1, True), (5, 0, 2, 6, True)],
                  replay_buffer = [(0, 0, 2, 6, True)], learner = 0, action_selector = 1,
                  update_step = 0, losses = [], episode_reward = 2\<rparr>"
    by (simp add: train_def new_agent_def train_step_def store_transition_def maybe_update_def
          list_collab_def use_n_step_def deque_append_def preprocess_nstep_def t_done_def
          t_reward_def numeral_2_eq_2)
  from one many example show ?thesis by blast
qed

theorem transition_queue_never_cleared_witness:
  "use_n_step \<lparr>hp_n_step = 2, hp_gamma = 1 / 2, hp_update_starting_point = 100,
                hp_train_freq = 1, hp_use_per = False\<rparr>
   \<and> length (transition_queue
        \<lparr>step = 2, transition_queue = [(0::nat, 0::nat, 1::real, 1::nat, True), (5, 0, 2, 6, True)],
         replay_buffer = [(0::nat, 0::nat, 2::real, 6::nat, True)], learner = 0::nat,
         action_selector = 1::real, update_step = 0, losses = [], episode_reward = 2\<rparr>) \<le> 2
   \<and> train_step list_collab
       \<lparr>hp_n_step = 2, hp_gamma = 1 / 2, hp_update_starting_point = 100, hp_train_freq = 1,
        hp_use_per = False\<rparr>
       (6, 1, 3, 7, False)
       \<lparr>step = 2, transition_queue = [(0::nat, 0::nat, 1, 1, True), (5, 0, 2, 6, True)],
        replay_buffer = [(0, 0, 2, 6, True)], learner = 0::nat, action_selector = 1::real,
        update_step = 0, losses = [], episode_reward = 2\<rparr>
     = Inr \<lparr>step = 3, transition_queue = [(5, 0, 2, 6, True), (6, 1, 3, 7, False)],
            replay_buffer = [(0, 0, 2, 6, True), (5, 0, 7 / 2, 7, False)], learner = 0,
            action_selector = 1, update_step = 0, losses = [], episode_reward = 5\<rparr>
   \<and> deque_append 2 (6::nat, 1::nat, 3::real, 7::nat, False) [(0, 0, 1, 1, True), (5, 0, 2, 6, True)]
     = [(5, 0, 2, 6, True), (6, 1, 3, 7, False)]"
proof -
  let ?hp = "\<lparr>hp_n_step = 2, hp_gamma = 1 / 2, hp_update_starting_point = 100,
              hp_train_freq = 1, hp_use_per = False\<rparr>"
  let ?s = "\<lparr>step = 2, transition_queue = [(0::nat, 0::nat, 1::real, 1::nat, True), (5, 0, 2, 6, True)],
         replay_buffer = [(0::nat, 0::nat, 2::real, 6::nat, True)], learner = 0::nat,
         action_selector = 1::real, update_step = 0, losses = [], episode_reward = 2\<rparr>"
  have u: "use_n_step ?hp" by (simp add: use_n_step_def)
  have l: "length (transition_queue ?s) \<le> hp_n_step ?hp" by simp
  have run: "train_step list_collab ?hp (6, 1, 3, 7, False) ?s
     = Inr \<lparr>step = 3, transition_queue = [(5, 0, 2, 6, True), (6, 1, 3, 7, False)],
            replay_buffer = [(0, 0, 2, 6, True), (5, 0, 7 / 2, 7, False)], learner = 0,
            action_selector = 1, update_step = 0, losses = [], episode_reward = 5\<rparr>"
    by (simp add: train_step_def store_transition_def maybe_update_def
          list_collab_def use_n_step_def deque_append_def preprocess_nstep_def
          t_reward_def)
  from transition_queue_never_cleared [OF u l, of list_collab] run
  have "[(5, 0, 2, 6, True), (6, 1, 3, 7, False)]
          = deque_append 2 (6::nat, 1::nat, 3::real, 7::nat, False) [(0, 0, 1, 1, True), (5, 0, 2, 6, True)]"
    by fastforce
  then show ?thesis using u l run by simp
qed

end
